theory Spec2Isabelle
  imports Main "HOL-Library.Multiset"
begin

section \<open>Chat client: message reconciliation and derived state\<close>

text \<open>
  A shallow embedding of \<^verbatim>\<open>client/src/components/chat/ChatContainer.tsx\<close> and of the
  upload handler of \<^verbatim>\<open>client/src/components/settings/ProfileImageUpload.tsx\<close>.
  React state is passed explicitly; each effect and handler is a function from the
  values it reads to the values it writes and the side effects it fires.
\<close>

subsection \<open>Messages\<close>

text \<open>
  The fields of \<^verbatim>\<open>Message\<close> the component reads. A field that may be missing is an
  option: \<open>id_msg\<close> is \<^verbatim>\<open>msg.id\<close> (a number), \<open>timestamp\<close> is the instant
  \<^verbatim>\<open>new Date(msg.timestamp).getTime()\<close> in milliseconds since the epoch (negative before
  1970). \<open>originalText\<close> is the list of the text's UTF-16 code units, empty when the
  text is missing: both are falsy.
\<close>

record message =
  id_msg :: "int option"
  roomId :: int
  senderId :: string
  senderName :: string
  originalText :: "nat list"
  timestamp :: "int option"

text \<open>\<^verbatim>\<open>msg.id\<close> in a condition: a missing id and the id 0 are both falsy.\<close>

definition truthy_id :: "int option \<Rightarrow> bool" where
  "truthy_id i = (case i of None \<Rightarrow> False | Some k \<Rightarrow> k \<noteq> 0)"

text \<open>\<^verbatim>\<open>new Date(m.timestamp || 0).getTime()\<close>: a missing timestamp is the epoch.\<close>

definition getTime :: "message \<Rightarrow> int" where
  "getTime m = (case timestamp m of None \<Rightarrow> 0 | Some t \<Rightarrow> t)"

subsection \<open>A JavaScript Map, in insertion order\<close>

text \<open>
  \<^verbatim>\<open>Map.prototype.set\<close> replaces the value of a key that is present, at the key's
  position, and appends a new key at the end; \<^verbatim>\<open>values()\<close> iterates in that order.
\<close>

fun map_set :: "'k \<Rightarrow> 'v \<Rightarrow> ('k \<times> 'v) list \<Rightarrow> ('k \<times> 'v) list" where
  "map_set k v [] = [(k, v)]"
| "map_set k v ((k', v') # kvs) =
     (if k' = k then (k, v) # kvs else (k', v') # map_set k v kvs)"

definition map_values :: "('k \<times> 'v) list \<Rightarrow> 'v list" where
  "map_values kvs = map snd kvs"

subsection \<open>Array.prototype.sort with a comparator\<close>

text \<open>
  ECMAScript's sort is stable, and for a consistent comparator its result is the one
  stable sorted arrangement; an insertion sort computes it. \<open>cmp a b \<le> 0\<close> keeps \<open>a\<close>
  in front of \<open>b\<close>.
\<close>

fun sort_insert :: "('a \<Rightarrow> 'a \<Rightarrow> int) \<Rightarrow> 'a \<Rightarrow> 'a list \<Rightarrow> 'a list" where
  "sort_insert cmp x [] = [x]"
| "sort_insert cmp x (y # ys) =
     (if cmp x y \<le> 0 then x # y # ys else y # sort_insert cmp x ys)"

fun js_sort :: "('a \<Rightarrow> 'a \<Rightarrow> int) \<Rightarrow> 'a list \<Rightarrow> 'a list" where
  "js_sort cmp [] = []"
| "js_sort cmp (x # xs) = sort_insert cmp x (js_sort cmp xs)"

subsection \<open>The merge of database and WebSocket messages\<close>

text \<open>The comparator of the merge: \<^verbatim>\<open>(a, b) => time(a) - time(b)\<close>.\<close>

definition timeCompare :: "message \<Rightarrow> message \<Rightarrow> int" where
  "timeCompare a b = getTime a - getTime b"

text \<open>
  One \<^verbatim>\<open>forEach\<close> over a message list:
  \<^verbatim>\<open>if (msg.id && !deletedMessageIds.has(msg.id)) messageMap.set(msg.id, msg)\<close>.
\<close>

fun add_messages ::
  "int set \<Rightarrow> message list \<Rightarrow> (int \<times> message) list \<Rightarrow> (int \<times> message) list" where
  "add_messages deletedMessageIds [] messageMap = messageMap"
| "add_messages deletedMessageIds (msg # msgs) messageMap =
     add_messages deletedMessageIds msgs
       (case id_msg msg of
          None \<Rightarrow> messageMap
        | Some k \<Rightarrow>
            if k \<noteq> 0 \<and> k \<notin> deletedMessageIds then map_set k msg messageMap
            else messageMap)"

text \<open>
  \<open>initialMessages\<close> is the query's data: \<open>None\<close> while it is undefined (or not an
  array). \<open>rid\<close> is the component's \<^verbatim>\<open>roomId\<close> prop.
\<close>

definition mergeMessages ::
  "message list option \<Rightarrow> message list \<Rightarrow> int \<Rightarrow> int set \<Rightarrow> message list" where
  "mergeMessages initialMessages allMessages rid deletedMessageIds =
     (let dbMessages = (case initialMessages of None \<Rightarrow> [] | Some ms \<Rightarrow> ms);
          wsMessages = filter (\<lambda>msg. roomId msg = rid) allMessages;
          messageMap = add_messages deletedMessageIds wsMessages
                         (add_messages deletedMessageIds dbMessages [])
      in js_sort timeCompare (map_values messageMap))"

subsection \<open>JavaScript strings and the library around them\<close>

text \<open>
  A string the component inspects (a message text, a display name, the text to send) is
  the list of its UTF-16 code units, as JavaScript has it. \<open>utf16\<close> gives the code
  units of a literal of ASCII characters.
\<close>

type_synonym js_string = "nat list"

definition utf16 :: "string \<Rightarrow> js_string" where
  "utf16 s = map of_char s"

text \<open>
  Two pieces of the JavaScript library are parameters. \<open>toUppercase\<close> is Unicode's
  upper-case conversion of one code unit, the result given as code units; the model
  fixes it on ASCII and asks the parameter elsewhere. \<open>regexp_engine source text\<close> is
  the answer of \<^verbatim>\<open>new RegExp(source, 'i').test(text)\<close> for a source in which the
  spliced name brings syntax characters of its own; the model computes the answer
  itself for every other source.
\<close>

record js_env =
  toUppercase :: "nat \<Rightarrow> nat list"
  regexp_engine :: "js_string \<Rightarrow> js_string \<Rightarrow> bool"

subsection \<open>The mention pattern\<close>

text \<open>
  \<^verbatim>\<open>new RegExp(`@${currentUserName}\\b`, 'i').test(text)\<close>. The name is spliced in
  unescaped. A name without syntax characters (\<open>regex_plain\<close>) is a run of literal
  characters, and the pattern is matched here; any other name is a pattern of its own,
  left to \<open>regexp_engine\<close> (an engine that rejects the source throws, which the
  model does not follow). \<^verbatim>\<open>\w\<close> is \<^verbatim>\<open>[A-Za-z0-9_]\<close>.
\<close>

definition is_word_char :: "nat \<Rightarrow> bool" where
  "is_word_char c =
     ((48 \<le> c \<and> c \<le> 57) \<or> (65 \<le> c \<and> c \<le> 90) \<or> c = 95 \<or> (97 \<le> c \<and> c \<le> 122))"

text \<open>
  Canonicalize of the \<^verbatim>\<open>i\<close> flag (no \<^verbatim>\<open>u\<close> flag): the upper case of the code unit
  when that is one code unit, except that a code unit from 128 on never maps below 128.
\<close>

definition canonicalize :: "js_env \<Rightarrow> nat \<Rightarrow> nat" where
  "canonicalize env c =
     (if c < 128 then (if 97 \<le> c \<and> c \<le> 122 then c - 32 else c)
      else (case toUppercase env c of
              [cu] \<Rightarrow> if cu < 128 then c else cu
            | _ \<Rightarrow> c))"

text \<open>The syntax characters: \<^verbatim>\<open>^ $ \ . * + ? ( ) [ ] { } |\<close>.\<close>

definition regex_meta :: "nat \<Rightarrow> bool" where
  "regex_meta c = (c \<in> set [94, 36, 92, 46, 42, 43, 63, 40, 41, 91, 93, 123, 125, 124])"

definition regex_plain :: "js_string \<Rightarrow> bool" where
  "regex_plain name = list_all (\<lambda>c. \<not> regex_meta c) name"

text \<open>The literal characters of the pattern against a prefix of the input; the rest is returned.\<close>

fun match_literal :: "js_env \<Rightarrow> js_string \<Rightarrow> js_string \<Rightarrow> js_string option" where
  "match_literal env [] s = Some s"
| "match_literal env (p # ps) [] = None"
| "match_literal env (p # ps) (c # cs) =
     (if canonicalize env p = canonicalize env c then match_literal env ps cs else None)"

text \<open>\<^verbatim>\<open>\b\<close> between the input consumed so far and the input that follows.\<close>

definition word_boundary :: "js_string \<Rightarrow> js_string \<Rightarrow> bool" where
  "word_boundary consumed remaining =
     ((consumed \<noteq> [] \<and> is_word_char (last consumed))
        \<noteq> (remaining \<noteq> [] \<and> is_word_char (hd remaining)))"

definition match_at :: "js_env \<Rightarrow> js_string \<Rightarrow> js_string \<Rightarrow> bool" where
  "match_at env pat s =
     (case match_literal env pat s of
        None \<Rightarrow> False
      | Some rest \<Rightarrow> word_boundary (take (length pat) s) rest)"

text \<open>\<^verbatim>\<open>test\<close> without the \<^verbatim>\<open>g\<close> flag: a match at any start position.\<close>

fun regex_test :: "js_env \<Rightarrow> js_string \<Rightarrow> js_string \<Rightarrow> bool" where
  "regex_test env pat [] = match_at env pat []"
| "regex_test env pat (c # cs) = (match_at env pat (c # cs) \<or> regex_test env pat cs)"

text \<open>The pattern for a name: 64 is \<^verbatim>\<open>@\<close>, and 92, 98 are the source's \<^verbatim>\<open>\b\<close>.\<close>

definition mention_pattern_test :: "js_env \<Rightarrow> js_string \<Rightarrow> js_string \<Rightarrow> bool" where
  "mention_pattern_test env name text =
     (if regex_plain name then regex_test env (64 # name) text
      else regexp_engine env (64 # name @ [92, 98]) text)"





subsection \<open>Mention detection\<close>

record user =
  id_user :: string
  firstName :: string
  lastName :: string
  email :: string

text \<open>
  \<open>getDisplayName\<close> is imported from \<^verbatim>\<open>@/lib/profileUtils\<close>, which is not part of the
  sources at hand: it is a parameter. \<open>usr\<close> is \<open>None\<close> when nobody is logged in.
\<close>

definition isUserMentioned ::
  "js_env \<Rightarrow> (user \<Rightarrow> js_string) \<Rightarrow> user option \<Rightarrow> message \<Rightarrow> bool" where
  "isUserMentioned env getDisplayName usr message =
     (case usr of
        None \<Rightarrow> False
      | Some u \<Rightarrow>
          if originalText message = [] then False
          else mention_pattern_test env (getDisplayName u) (originalText message))"

text \<open>\<^verbatim>\<open>message.id && !previousMessageIds.has(message.id)\<close>, over the previous view.\<close>

definition isNewMessage :: "message list \<Rightarrow> message \<Rightarrow> bool" where
  "isNewMessage previous message =
     (truthy_id (id_msg message) \<and> id_msg message \<notin> id_msg ` set previous)"

text \<open>\<^verbatim>\<open>message.senderId !== user?.id\<close>.\<close>

definition isNotFromSelf :: "user option \<Rightarrow> message \<Rightarrow> bool" where
  "isNotFromSelf usr message =
     (case usr of None \<Rightarrow> True | Some u \<Rightarrow> senderId message \<noteq> id_user u)"

text \<open>
  The ids for which the loop over the merged list plays the sound and shows the
  notification, in the order it fires them.
\<close>

definition newMentions ::
  "js_env \<Rightarrow> (user \<Rightarrow> js_string) \<Rightarrow> user option \<Rightarrow> message list \<Rightarrow> message list \<Rightarrow> int list" where
  "newMentions env getDisplayName usr previous mergedMessages =
     List.map_filter
       (\<lambda>message.
          if isNewMessage previous message \<and> isNotFromSelf usr message
             \<and> isUserMentioned env getDisplayName usr message
          then id_msg message else None)
       mergedMessages"

subsection \<open>The merge effect\<close>

record chat_state =
  roomMessages :: "message list"
  mentionedMessageIds :: "int set"

text \<open>
  One run of the effect: the notifications it fires and the state it leaves.
  \<open>mentionedMessageIds\<close> only grows; the loop above never reads it.
\<close>

definition merge_effect ::
  "js_env \<Rightarrow> (user \<Rightarrow> js_string) \<Rightarrow> user option \<Rightarrow> message list option \<Rightarrow> message list \<Rightarrow>
   int \<Rightarrow> int set \<Rightarrow> chat_state \<Rightarrow> int list \<times> chat_state" where
  "merge_effect env getDisplayName usr initialMessages allMessages rid deletedMessageIds st =
     (let mergedMessages = mergeMessages initialMessages allMessages rid deletedMessageIds;
          fired = newMentions env getDisplayName usr (roomMessages st) mergedMessages;
          updated = mentionedMessageIds st \<union>
            set (List.map_filter
                   (\<lambda>message.
                      if truthy_id (id_msg message)
                         \<and> isUserMentioned env getDisplayName usr message
                      then id_msg message else None)
                   mergedMessages)
      in (fired, \<lparr>roomMessages = mergedMessages, mentionedMessageIds = updated\<rparr>))"

text \<open>
  A session: the effect run once per change of its inputs, each run reading the state
  the run before it left. An input is (user, initialMessages, allMessages, roomId,
  deletedMessageIds).
\<close>

type_synonym pass_input =
  "user option \<times> message list option \<times> message list \<times> int \<times> int set"

fun run_passes ::
  "js_env \<Rightarrow> (user \<Rightarrow> js_string) \<Rightarrow> pass_input list \<Rightarrow> chat_state \<Rightarrow>
   int list list \<times> chat_state" where
  "run_passes env getDisplayName [] st = ([], st)"
| "run_passes env getDisplayName ((usr, init, allm, rid, del) # rest) st =
     (let (fired, st') = merge_effect env getDisplayName usr init allm rid del st;
          (later, st'') = run_passes env getDisplayName rest st'
      in (fired # later, st''))"

subsection \<open>The rendered order\<close>

text \<open>\<^verbatim>\<open>findIndex\<close>: the first index whose element satisfies the predicate, or -1.\<close>

fun findIndex :: "('a \<Rightarrow> bool) \<Rightarrow> 'a list \<Rightarrow> int" where
  "findIndex P [] = - 1"
| "findIndex P (x # xs) =
     (if P x then 0 else (let i = findIndex P xs in if i < 0 then - 1 else i + 1))"

text \<open>
  \<^verbatim>\<open>.filter((message, index, self) => index === self.findIndex(m => m.id === message.id))\<close>
\<close>

definition filter_first_by_id :: "message list \<Rightarrow> message list" where
  "filter_first_by_id self =
     map snd
       (filter (\<lambda>(index, message). int index = findIndex (\<lambda>m. id_msg m = id_msg message) self)
          (enumerate 0 self))"

text \<open>\<^verbatim>\<open>translatedMessages.has(m.id)\<close>; the keys of the cache are message ids.\<close>

definition hasTranslation :: "(int \<rightharpoonup> string) \<Rightarrow> message \<Rightarrow> bool" where
  "hasTranslation cache m = (case id_msg m of None \<Rightarrow> False | Some k \<Rightarrow> cache k \<noteq> None)"

definition renderCompare :: "(int \<rightharpoonup> string) \<Rightarrow> message \<Rightarrow> message \<Rightarrow> int" where
  "renderCompare cache a b =
     (let timeComparison = getTime a - getTime b;
          aTime = getTime a;
          bTime = getTime b;
          timeDiff = \<bar>aTime - bTime\<bar>;
          aHasTranslation = hasTranslation cache a;
          bHasTranslation = hasTranslation cache b
      in if timeDiff < 1000 \<and> aHasTranslation \<and> \<not> bHasTranslation then 1
         else if timeDiff < 1000 \<and> \<not> aHasTranslation \<and> bHasTranslation then - 1
         else timeComparison)"

definition render_view :: "(int \<rightharpoonup> string) \<Rightarrow> message list \<Rightarrow> message list" where
  "render_view cache msgs = js_sort (renderCompare cache) (filter_first_by_id msgs)"

subsection \<open>The translation cache\<close>

text \<open>
  \<open>translatedMessages\<close> maps a message id to its translated text.
  \<^verbatim>\<open>translationManager\<close> lives outside the sources at hand: what it is handed is a
  request, and when (and whether) it calls the request's callback is an event.
\<close>

record translation_state =
  currentLanguage :: string
  translatedMessages :: "int \<rightharpoonup> string"

datatype priority = High | Normal

record translate_request =
  req_message :: message
  req_targetLanguage :: string
  req_priority :: priority
  req_messageId :: int

text \<open>
  \<^verbatim>\<open>handleManualTranslation\<close>: nothing is requested for an id that is not in the view.
\<close>

definition handleManualTranslation ::
  "message list \<Rightarrow> int \<Rightarrow> string \<Rightarrow> string \<Rightarrow> string \<Rightarrow> translate_request option" where
  "handleManualTranslation msgs messageId text sourceLanguage targetLanguage =
     (case find (\<lambda>m. id_msg m = Some messageId) msgs of
        None \<Rightarrow> None
      | Some message \<Rightarrow>
          Some \<lparr>req_message = message, req_targetLanguage = targetLanguage,
                req_priority = High, req_messageId = messageId\<rparr>)"

text \<open>
  The callback of a request, called with the translated text:
  \<^verbatim>\<open>setTranslatedMessages(prev => { updated = new Map(prev); updated.set(messageId, result) })\<close>.
\<close>

definition translation_callback ::
  "translate_request \<Rightarrow> string \<Rightarrow> translation_state \<Rightarrow> translation_state" where
  "translation_callback req translatedResult st =
     st\<lparr>translatedMessages := (translatedMessages st)(req_messageId req \<mapsto> translatedResult)\<rparr>"

text \<open>
  The language selector's \<^verbatim>\<open>onChange\<close> with the effect on \<^verbatim>\<open>currentLanguage\<close>: the
  language is stored and the cache replaced by an empty map.
\<close>

definition language_changed :: "string \<Rightarrow> translation_state \<Rightarrow> translation_state" where
  "language_changed newLang st = \<lparr>currentLanguage = newLang, translatedMessages = Map.empty\<rparr>"

datatype cache_event =
  LanguageChanged string
| TranslationResolved translate_request string

fun cache_step :: "cache_event \<Rightarrow> translation_state \<Rightarrow> translation_state" where
  "cache_step (LanguageChanged newLang) st = language_changed newLang st"
| "cache_step (TranslationResolved req translatedResult) st =
     translation_callback req translatedResult st"

fun cache_run :: "cache_event list \<Rightarrow> translation_state \<Rightarrow> translation_state" where
  "cache_run [] st = st"
| "cache_run (e # es) st = cache_run es (cache_step e st)"

subsection \<open>Scrolling\<close>

record viewport_state =
  isUserScrolling :: bool
  showScrollToBottom :: bool

datatype ui_effect =
  SendMessage "nat list" int
| ClearReply
| ScheduleScrollToBottom

text \<open>
  \<^verbatim>\<open>handleScroll\<close>, over the element's \<^verbatim>\<open>scrollTop\<close>, \<^verbatim>\<open>clientHeight\<close> and
  \<^verbatim>\<open>scrollHeight\<close> (pixels) and \<^verbatim>\<open>roomMessages.length\<close>. The timer it restarts ends in
  \<open>scroll_quiet\<close>, two seconds after the last scroll event.
\<close>

definition handleScroll :: "int \<Rightarrow> int \<Rightarrow> int \<Rightarrow> nat \<Rightarrow> viewport_state \<Rightarrow> viewport_state" where
  "handleScroll scrollTop clientHeight scrollHeight n st =
     (let isNearBottom = (scrollTop + clientHeight \<ge> scrollHeight - 100)
      in \<lparr>isUserScrolling = True, showScrollToBottom = (\<not> isNearBottom \<and> n > 0)\<rparr>)"

definition scroll_quiet :: "viewport_state \<Rightarrow> viewport_state" where
  "scroll_quiet st = st\<lparr>isUserScrolling := False\<rparr>"

definition scrollToBottom :: "viewport_state \<Rightarrow> viewport_state" where
  "scrollToBottom st = st\<lparr>showScrollToBottom := False\<rparr>"

text \<open>
  The autoscroll effect, run when \<^verbatim>\<open>roomMessages.length\<close>, \<^verbatim>\<open>isUserScrolling\<close> or
  \<^verbatim>\<open>showScrollToBottom\<close> changes.
\<close>

definition autoscroll_effect :: "nat \<Rightarrow> viewport_state \<Rightarrow> ui_effect list" where
  "autoscroll_effect n st =
     (if \<not> isUserScrolling st \<and> \<not> showScrollToBottom st \<and> n > 0
      then [ScheduleScrollToBottom] else [])"

text \<open>The jump-to-latest button is rendered exactly when \<^verbatim>\<open>showScrollToBottom\<close> is set.\<close>

definition jump_to_latest_shown :: "viewport_state \<Rightarrow> bool" where
  "jump_to_latest_shown st = showScrollToBottom st"

text \<open>
  \<^verbatim>\<open>String.prototype.trim\<close> strips white space and line terminators: TAB, LF, VT, FF,
  CR, SPACE, U+00A0, U+1680, U+2000 to U+200A, U+2028, U+2029, U+202F, U+205F, U+3000
  and U+FEFF.
\<close>

definition is_space :: "nat \<Rightarrow> bool" where
  "is_space c =
     ((9 \<le> c \<and> c \<le> 13) \<or> c = 32 \<or> c = 160 \<or> c = 5760 \<or> (8192 \<le> c \<and> c \<le> 8202)
      \<or> c = 8232 \<or> c = 8233 \<or> c = 8239 \<or> c = 8287 \<or> c = 12288 \<or> c = 65279)"

definition trim :: "js_string \<Rightarrow> js_string" where
  "trim s = rev (dropWhile is_space (rev (dropWhile is_space s)))"

definition handleSendMessage :: "js_string \<Rightarrow> int \<Rightarrow> ui_effect list" where
  "handleSendMessage text rid =
     (if trim text = [] then []
      else [SendMessage (trim text) rid, ClearReply, ScheduleScrollToBottom])"

subsection \<open>Profile image upload\<close>

record upload_file =
  file_type :: string
  file_size :: nat

datatype upload_effect =
  Toast string string
| SetIsUploading bool
| ReadAsDataURL upload_file
| UpdateProfileImage string bool

definition startsWith :: "string \<Rightarrow> string \<Rightarrow> bool" where
  "startsWith s p = (take (length p) s = p)"

text \<open>
  \<^verbatim>\<open>handleFileUpload\<close> up to the point where it hands the file to the reader;
  \<open>None\<close> is an event without a file.
\<close>

definition handleFileUpload :: "upload_file option \<Rightarrow> upload_effect list" where
  "handleFileUpload selected =
     (case selected of
        None \<Rightarrow> []
      | Some f \<Rightarrow>
          if \<not> startsWith (file_type f) ''image/''
          then [Toast ''Invalid file type'' ''Please select an image file.'']
          else if file_size f > 1 * 1024 * 1024
          then [Toast ''File too large'' ''Please select an image smaller than 1MB.'']
          else [SetIsUploading True, ReadAsDataURL f])"

text \<open>
  What follows the read: the image loads and its compressed data URL (the canvas's
  output) is sent by the update mutation, or the image fails to load, or the reader
  never delivers the file and no callback runs.
\<close>

datatype image_result = ImageLoaded string | ImageError | ReadFailed

definition image_settled :: "image_result \<Rightarrow> upload_effect list" where
  "image_settled r =
     (case r of
        ImageLoaded compressedDataUrl \<Rightarrow>
          [UpdateProfileImage compressedDataUrl True, SetIsUploading False]
      | ImageError \<Rightarrow>
          [Toast ''Error'' ''Failed to process the image file.'', SetIsUploading False]
      | ReadFailed \<Rightarrow> [])"

text \<open>The handler together with the callbacks it registers; they exist only once a read started.\<close>

definition upload_session :: "upload_file option \<Rightarrow> image_result \<Rightarrow> upload_effect list" where
  "upload_session selected r =
     (let started = handleFileUpload selected
      in if list_ex (\<lambda>e. case e of ReadAsDataURL _ \<Rightarrow> True | _ \<Rightarrow> False) started
         then started @ image_settled r else started)"

subsection \<open>Example data\<close>

text \<open>A well-formed message: id, room, sender, text (ASCII), timestamp.\<close>

definition mk_message :: "int \<Rightarrow> int \<Rightarrow> string \<Rightarrow> string \<Rightarrow> int \<Rightarrow> message" where
  "mk_message i r sender body t =
     \<lparr>id_msg = Some i, roomId = r, senderId = sender, senderName = sender,
      originalText = utf16 body, timestamp = Some t\<rparr>"

definition alice :: user where
  "alice = \<lparr>id_user = ''alice-self-id'', firstName = ''Alice'', lastName = [],
            email = ''alice@example.org''\<rparr>"

text \<open>A display name for the examples: the first name.\<close>

definition first_name :: "user \<Rightarrow> js_string" where
  "first_name u = utf16 (firstName u)"

text \<open>
  An environment for the examples. Their texts are ASCII and their names plain, so
  neither parameter is consulted.
\<close>

definition example_env :: js_env where
  "example_env = \<lparr>toUppercase = (\<lambda>c. [c]), regexp_engine = (\<lambda>source text. False)\<rparr>"



section \<open>Properties\<close>

subsection \<open>The sort permutes its input\<close>

lemma mset_sort_insert: "mset (sort_insert cmp x xs) = add_mset x (mset xs)"
  by (induction xs) auto

lemma mset_js_sort: "mset (js_sort cmp xs) = mset xs"
  by (induction xs) (auto simp: mset_sort_insert)

lemma set_js_sort: "set (js_sort cmp xs) = set xs"
  using mset_js_sort [of cmp xs] by (metis set_mset_mset)

subsection \<open>What the map holds\<close>

lemma set_map_set: "set (map_set k v kvs) \<subseteq> insert (k, v) (set kvs)"
  by (induction kvs) (auto split: if_splits)

lemma add_messages_not_deleted:
  "\<forall>(k, m) \<in> set mp. k \<notin> del \<and> id_msg m = Some k \<and> k \<noteq> 0 \<Longrightarrow>
   \<forall>(k, m) \<in> set (add_messages del msgs mp). k \<notin> del \<and> id_msg m = Some k \<and> k \<noteq> 0"
proof (induction msgs arbitrary: mp)
  case Nil
  then show ?case by simp
next
  case (Cons msg msgs)
  show ?case
  proof (cases "id_msg msg")
    case None
    with Cons show ?thesis by simp
  next
    case (Some k)
    show ?thesis
    proof (cases "k \<noteq> 0 \<and> k \<notin> del")
      case True
      have "\<forall>(k', m) \<in> set (map_set k msg mp). k' \<notin> del \<and> id_msg m = Some k' \<and> k' \<noteq> 0"
        using set_map_set [of k msg mp] Cons.prems True Some by auto
      from Cons.IH [OF this] show ?thesis using Some True by simp
    next
      case False
      with Cons Some show ?thesis by auto
    qed
  qed
qed

lemma merged_entries:
  "m \<in> set (mergeMessages init allm rid del) \<Longrightarrow>
   \<exists>k. id_msg m = Some k \<and> k \<noteq> 0 \<and> k \<notin> del"
proof -
  assume a: "m \<in> set (mergeMessages init allm rid del)"
  define db where "db = (case init of None \<Rightarrow> [] | Some ms \<Rightarrow> ms)"
  define ws where "ws = filter (\<lambda>msg. roomId msg = rid) allm"
  define mp where "mp = add_messages del ws (add_messages del db [])"
  have inv0: "\<forall>(k, m) \<in> set (add_messages del db []). k \<notin> del \<and> id_msg m = Some k \<and> k \<noteq> 0"
    by (rule add_messages_not_deleted) simp
  have inv: "\<forall>(k, m) \<in> set mp. k \<notin> del \<and> id_msg m = Some k \<and> k \<noteq> 0"
    unfolding mp_def by (rule add_messages_not_deleted [OF inv0])
  from a have "m \<in> snd ` set mp"
    by (simp add: mergeMessages_def Let_def set_js_sort map_values_def db_def ws_def mp_def)
  then obtain k where "(k, m) \<in> set mp" by force
  with inv show ?thesis by blast
qed

text \<open>
  C1 (tombstone supremacy). Whatever the database list, the WebSocket list and the set
  of deleted ids are, no message whose id is in the deleted set is in the merged list.
\<close>

theorem tombstone_supremacy:
  "k \<in> deletedMessageIds \<Longrightarrow>
   Some k \<notin> id_msg ` set (mergeMessages initialMessages allMessages rid deletedMessageIds)"
  using merged_entries by fastforce

theorem tombstone_supremacy_witness:
  "5 \<in> {5 :: int} \<and>
   Some 5 \<notin> id_msg ` set (mergeMessages (Some [mk_message 5 1 ''bob'' ''hi'' 100])
                                [mk_message 5 1 ''bob'' ''hi again'' 100] 1 {5})"
  using tombstone_supremacy [of 5 "{5}" "Some [mk_message 5 1 ''bob'' ''hi'' 100]"
      "[mk_message 5 1 ''bob'' ''hi again'' 100]" 1]
  by simp

subsection \<open>Keys of the merge map\<close>

lemma keys_map_set:
  "map fst (map_set k v kvs) = (if k \<in> fst ` set kvs then map fst kvs else map fst kvs @ [k])"
proof (induction kvs)
  case Nil
  show ?case by simp
next
  case (Cons p kvs)
  obtain k' v' where p: "p = (k', v')" by (cases p)
  show ?case using Cons.IH p by force
qed

lemma distinct_map_set: "distinct (map fst kvs) \<Longrightarrow> distinct (map fst (map_set k v kvs))"
  by (simp add: keys_map_set)

lemma map_of_map_set: "map_of (map_set k v kvs) = (map_of kvs)(k \<mapsto> v)"
  by (induction kvs) (auto simp: fun_eq_iff)

lemma distinct_add_messages:
  "distinct (map fst mp) \<Longrightarrow> distinct (map fst (add_messages del msgs mp))"
  by (induction msgs arbitrary: mp) (auto simp: distinct_map_set split: option.splits)

lemma map_of_add_messages:
  "k \<noteq> 0 \<Longrightarrow> k \<notin> del \<Longrightarrow>
   map_of (add_messages del msgs mp) k =
     (if filter (\<lambda>m. id_msg m = Some k) msgs = [] then map_of mp k
      else Some (last (filter (\<lambda>m. id_msg m = Some k) msgs)))"
  by (induction msgs arbitrary: mp) (auto simp: map_of_map_set split: option.splits)

lemma filter_values_by_key:
  "distinct (map fst mp) \<Longrightarrow> \<forall>(k, m) \<in> set mp. id_msg m = Some k \<Longrightarrow>
   filter (\<lambda>m. id_msg m = Some k) (map snd mp) =
     (case map_of mp k of None \<Rightarrow> [] | Some v \<Rightarrow> [v])"
proof (induction mp)
  case Nil
  then show ?case by simp
next
  case (Cons p mp)
  obtain k' v' where p: "p = (k', v')" by (cases p)
  show ?case
  proof (cases "k' = k")
    case True
    with Cons.prems p have "map_of mp k = None"
      by (simp add: map_of_eq_None_iff)
    with Cons p True show ?thesis by (auto split: option.splits)
  next
    case False
    with Cons p show ?thesis by auto
  qed
qed


lemma filter_js_sort_single:
  assumes "filter P xs = [v]"
  shows "filter P (js_sort cmp xs) = [v]"
proof -
  have "mset (filter P (js_sort cmp xs)) = mset (filter P xs)"
    by (simp add: mset_js_sort)
  with assms show ?thesis by (metis mset_single_iff_right mset.simps)
qed

lemma merge_map_invariant:
  "\<forall>(k, m) \<in> set (add_messages del ws (add_messages del db [])).
     k \<notin> del \<and> id_msg m = Some k \<and> k \<noteq> 0"
  by (rule add_messages_not_deleted, rule add_messages_not_deleted) simp

text \<open>
  C2 (dedup), as amended. For an id that is valid (not 0), not deleted, present in the
  database list and present in the WebSocket list of this room, the merged list holds
  exactly one message with that id, and it is the WebSocket version: the last message
  with that id in the WebSocket list.
\<close>

theorem dedup_live_wins:
  assumes valid: "k \<noteq> 0" and live': "k \<notin> deletedMessageIds"
    and hist: "Some k \<in> id_msg ` set dbMessages"
    and live: "l \<in> set allMessages" "id_msg l = Some k" "roomId l = rid"
  shows "filter (\<lambda>m. id_msg m = Some k)
           (mergeMessages (Some dbMessages) allMessages rid deletedMessageIds)
         = [last (filter (\<lambda>m. roomId m = rid \<and> id_msg m = Some k) allMessages)]"
proof -
  define ws where "ws = filter (\<lambda>msg. roomId msg = rid) allMessages"
  define mp where
    "mp = add_messages deletedMessageIds ws (add_messages deletedMessageIds dbMessages [])"
  have wsk: "filter (\<lambda>m. id_msg m = Some k) ws
             = filter (\<lambda>m. roomId m = rid \<and> id_msg m = Some k) allMessages"
    by (simp add: ws_def conj_commute)
  from live have "l \<in> set (filter (\<lambda>m. id_msg m = Some k) ws)"
    by (simp add: ws_def)
  then have ne: "filter (\<lambda>m. id_msg m = Some k) ws \<noteq> []"
    by (metis empty_iff list.set(1))
  have look: "map_of mp k = Some (last (filter (\<lambda>m. id_msg m = Some k) ws))"
    unfolding mp_def using map_of_add_messages [OF valid live'] ne by simp
  have dist: "distinct (map fst mp)"
    unfolding mp_def by (intro distinct_add_messages) simp
  have inv: "\<forall>(k, m) \<in> set mp. id_msg m = Some k"
    using merge_map_invariant [of deletedMessageIds ws dbMessages]
    unfolding mp_def by fastforce
  have "filter (\<lambda>m. id_msg m = Some k) (map snd mp)
        = [last (filter (\<lambda>m. id_msg m = Some k) ws)]"
    using filter_values_by_key [OF dist inv, of k] look by simp
  then have "filter (\<lambda>m. id_msg m = Some k) (js_sort timeCompare (map snd mp))
        = [last (filter (\<lambda>m. id_msg m = Some k) ws)]"
    by (rule filter_js_sort_single)
  then show ?thesis
    by (simp add: mergeMessages_def Let_def map_values_def mp_def ws_def [symmetric] wsk)
qed

lemma distinct_merged_ids:
  "distinct (map id_msg (mergeMessages init allm rid del))"
proof -
  define db where "db = (case init of None \<Rightarrow> [] | Some ms \<Rightarrow> ms)"
  define ws where "ws = filter (\<lambda>msg. roomId msg = rid) allm"
  define mp where "mp = add_messages del ws (add_messages del db [])"
  have dist: "distinct (map fst mp)"
    unfolding mp_def by (intro distinct_add_messages) simp
  have inv: "\<forall>(k, m) \<in> set mp. id_msg m = Some k"
    using merge_map_invariant [of del ws db] unfolding mp_def by fastforce
  then have eq: "map id_msg (map snd mp) = map Some (map fst mp)"
    by (induction mp) auto
  have "distinct (map Some (map fst mp))"
    using dist by (simp only: distinct_map) simp
  then have "distinct (map id_msg (map snd mp))"
    by (simp only: eq)
  moreover have "mset (map id_msg (js_sort timeCompare (map snd mp)))
                 = mset (map id_msg (map snd mp))"
    by (simp only: mset_map mset_js_sort)
  ultimately have "distinct (map id_msg (js_sort timeCompare (map snd mp)))"
    by (metis mset_eq_imp_distinct_iff)
  then show ?thesis
    by (simp add: mergeMessages_def Let_def map_values_def mp_def ws_def db_def)
qed

theorem dedup_live_wins_witness:
  "(1::int) \<noteq> 0 \<and> 1 \<notin> ({} :: int set)
   \<and> Some 1 \<in> id_msg ` set [mk_message 1 1 ''bob'' ''hello'' 100]
   \<and> filter (\<lambda>m. id_msg m = Some 1)
        (mergeMessages (Some [mk_message 1 1 ''bob'' ''hello'' 100])
           [mk_message 1 1 ''bob'' ''edited-equivalent'' 100, mk_message 2 1 ''bob'' ''x'' 101] 1 {})
      = [mk_message 1 1 ''bob'' ''edited-equivalent'' 100]"
  using dedup_live_wins [of 1 "{}" "[mk_message 1 1 ''bob'' ''hello'' 100]"
      "mk_message 1 1 ''bob'' ''edited-equivalent'' 100"
      "[mk_message 1 1 ''bob'' ''edited-equivalent'' 100, mk_message 2 1 ''bob'' ''x'' 101]" 1]
  by (simp add: mk_message_def)

text \<open>
  As stated, C2 fails for a deleted id: it is in both lists and in no copy in the output.
\<close>

theorem dedup_counterexample:
  "Some 5 \<in> id_msg ` set [mk_message 5 1 ''bob'' ''hi'' 100]
   \<and> Some 5 \<in> id_msg ` set [mk_message 5 1 ''bob'' ''hi again'' 100]
   \<and> mergeMessages (Some [mk_message 5 1 ''bob'' ''hi'' 100])
        [mk_message 5 1 ''bob'' ''hi again'' 100] 1 {5} = []"
  by (simp add: mergeMessages_def mk_message_def map_values_def)

subsection \<open>Both comparators are consistent; the sort sorts\<close>

lemma set_sort_insert: "set (sort_insert cmp x xs) = insert x (set xs)"
  using mset_sort_insert [of cmp x xs] by (metis set_mset_add_mset_insert set_mset_mset)

lemma sorted_sort_insert:
  assumes total: "\<And>a b. cmp a b \<le> 0 \<or> cmp b a \<le> 0"
    and trans: "\<And>a b c. cmp a b \<le> 0 \<Longrightarrow> cmp b c \<le> 0 \<Longrightarrow> cmp a c \<le> 0"
  shows "sorted_wrt (\<lambda>a b. cmp a b \<le> 0) ys \<Longrightarrow>
         sorted_wrt (\<lambda>a b. cmp a b \<le> 0) (sort_insert cmp x ys)"
proof (induction ys)
  case Nil
  show ?case by simp
next
  case (Cons y ys)
  show ?case
  proof (cases "cmp x y \<le> 0")
    case True
    have "\<forall>z \<in> set ys. cmp x z \<le> 0"
      using Cons.prems True trans by auto
    with True Cons.prems show ?thesis by simp
  next
    case False
    with total [of x y] have yx: "cmp y x \<le> 0" by simp
    from Cons have "sorted_wrt (\<lambda>a b. cmp a b \<le> 0) (sort_insert cmp x ys)" by simp
    with False yx Cons.prems show ?thesis by (simp add: set_sort_insert)
  qed
qed

lemma sorted_js_sort:
  assumes total: "\<And>a b. cmp a b \<le> 0 \<or> cmp b a \<le> 0"
    and trans: "\<And>a b c. cmp a b \<le> 0 \<Longrightarrow> cmp b c \<le> 0 \<Longrightarrow> cmp a c \<le> 0"
  shows "sorted_wrt (\<lambda>a b. cmp a b \<le> 0) (js_sort cmp xs)"
  by (induction xs) (simp_all add: sorted_sort_insert [OF total trans])

lemma renderCompare_le:
  "renderCompare cache a b \<le> 0 \<longleftrightarrow>
     (if \<bar>getTime a - getTime b\<bar> < 1000 \<and> hasTranslation cache a \<noteq> hasTranslation cache b
      then \<not> hasTranslation cache a \<and> hasTranslation cache b
      else getTime a \<le> getTime b)"
  by (auto simp: renderCompare_def Let_def)

lemma renderCompare_total: "renderCompare cache a b \<le> 0 \<or> renderCompare cache b a \<le> 0"
  unfolding renderCompare_le by auto

lemma renderCompare_trans:
  "renderCompare cache a b \<le> 0 \<Longrightarrow> renderCompare cache b c \<le> 0 \<Longrightarrow>
   renderCompare cache a c \<le> 0"
  unfolding renderCompare_le
  by (cases "hasTranslation cache a"; cases "hasTranslation cache b";
      cases "hasTranslation cache c") (simp_all split: if_splits, linarith+)

lemma timeCompare_total: "timeCompare a b \<le> 0 \<or> timeCompare b a \<le> 0"
  by (auto simp: timeCompare_def)

lemma timeCompare_trans:
  "timeCompare a b \<le> 0 \<Longrightarrow> timeCompare b c \<le> 0 \<Longrightarrow> timeCompare a c \<le> 0"
  by (simp add: timeCompare_def)


lemma sorted_merged: "sorted (map getTime (mergeMessages init allm rid del))"
proof -
  have "sorted_wrt (\<lambda>a b. timeCompare a b \<le> 0) (mergeMessages init allm rid del)"
    unfolding mergeMessages_def Let_def
    by (rule sorted_js_sort [OF timeCompare_total timeCompare_trans])
  then show ?thesis
    by (simp add: sorted_map timeCompare_def)
qed

lemma render_view_ordered:
  assumes "i < j" and "j < length (render_view cache msgs)"
  shows "let a = render_view cache msgs ! i; b = render_view cache msgs ! j
         in if \<bar>getTime a - getTime b\<bar> < 1000 \<and> hasTranslation cache a \<noteq> hasTranslation cache b
            then \<not> hasTranslation cache a \<and> hasTranslation cache b
            else getTime a \<le> getTime b"
proof -
  have "sorted_wrt (\<lambda>a b. renderCompare cache a b \<le> 0) (render_view cache msgs)"
    unfolding render_view_def
    by (rule sorted_js_sort [OF renderCompare_total renderCompare_trans])
  with assms have "renderCompare cache (render_view cache msgs ! i) (render_view cache msgs ! j) \<le> 0"
    by (simp add: sorted_wrt_iff_nth_less)
  then show ?thesis
    unfolding Let_def renderCompare_le .
qed


text \<open>
  C3 (ordering), as amended. The merged list is sorted by timestamp, ascending. In the
  rendered sequence, of two messages less than a second apart of which exactly one has a
  cached translation, the one without it comes first; every other pair is in timestamp order.
\<close>

theorem reconciled_order:
  assumes "i < j"
    and "j < length (render_view cache (mergeMessages init allm rid del))"
  shows "sorted (map getTime (mergeMessages init allm rid del)) \<and>
         (let a = render_view cache (mergeMessages init allm rid del) ! i;
              b = render_view cache (mergeMessages init allm rid del) ! j
          in if \<bar>getTime a - getTime b\<bar> < 1000
                \<and> hasTranslation cache a \<noteq> hasTranslation cache b
             then \<not> hasTranslation cache a \<and> hasTranslation cache b
             else getTime a \<le> getTime b)"
  using sorted_merged render_view_ordered [OF assms] by simp

lemma render_example:
  "render_view [1 \<mapsto> ''uno'']
     (mergeMessages (Some [mk_message 1 1 ''bob'' ''one'' 0, mk_message 2 1 ''bob'' ''two'' 500])
        [] 1 {})
   = [mk_message 2 1 ''bob'' ''two'' 500, mk_message 1 1 ''bob'' ''one'' 0]"
  by (simp add: render_view_def mergeMessages_def mk_message_def map_values_def timeCompare_def
      getTime_def filter_first_by_id_def enumerate_eq_zip renderCompare_def hasTranslation_def
      Let_def upt_rec)

theorem reconciled_order_witness:
  "(0::nat) < 1 \<and>
   1 < length (render_view [1 \<mapsto> ''uno'']
         (mergeMessages (Some [mk_message 1 1 ''bob'' ''one'' 0, mk_message 2 1 ''bob'' ''two'' 500])
            [] 1 {})) \<and>
   \<not> hasTranslation [1 \<mapsto> ''uno''] (mk_message 2 1 ''bob'' ''two'' 500) \<and>
   hasTranslation [1 \<mapsto> ''uno''] (mk_message 1 1 ''bob'' ''one'' 0)"
  using reconciled_order [of 0 1 "[1 \<mapsto> ''uno'']"
      "Some [mk_message 1 1 ''bob'' ''one'' 0, mk_message 2 1 ''bob'' ''two'' 500]" "[]" 1 "{}"]
  by (simp add: render_example) (simp add: mk_message_def getTime_def hasTranslation_def)

text \<open>
  As stated, C3 fails: a translated message half a second older than an untranslated one
  is rendered after it, so the rendered sequence is not ascending in timestamp.
\<close>

theorem reconciled_order_counterexample:
  "\<not> sorted (map getTime (render_view [1 \<mapsto> ''uno'']
       (mergeMessages (Some [mk_message 1 1 ''bob'' ''one'' 0, mk_message 2 1 ''bob'' ''two'' 500])
          [] 1 {})))"
  by (simp add: render_example) (simp add: mk_message_def getTime_def)








subsection \<open>The mention pattern, declaratively\<close>






lemma in_set_map_filter: "y \<in> set (List.map_filter f xs) \<longleftrightarrow> (\<exists>x \<in> set xs. f x = Some y)"
  by (induction xs) (auto split: option.splits)

lemma newMentions_iff:
  "k \<in> set (newMentions env g usr previous merged) \<longleftrightarrow>
     (\<exists>m \<in> set merged. id_msg m = Some k \<and> isNewMessage previous m \<and> isNotFromSelf usr m
        \<and> isUserMentioned env g usr m)"
  unfolding newMentions_def by (auto simp: in_set_map_filter split: if_splits)




lemma mention_example:
  "mergeMessages None [mk_message 7 1 ''bob'' ''hi @Alice how are you'' 100] 1 {}
   = [mk_message 7 1 ''bob'' ''hi @Alice how are you'' 100]"
  by (simp add: mergeMessages_def mk_message_def map_values_def)




text \<open>
  The user's own message with the same text fires nothing; and a name outside ASCII is
  matched code unit by code unit, its last character not being a word character.
\<close>

lemma own_message_example:
  "newMentions example_env first_name (Some alice) []
     (mergeMessages None [mk_message 7 1 ''alice-self-id'' ''hi @Alice how are you'' 100] 1 {})
   = []"
  by (simp add: mergeMessages_def map_values_def)
     (simp add: newMentions_def mk_message_def alice_def isNewMessage_def isNotFromSelf_def)

lemma non_ascii_name_example:
  "mention_pattern_test example_env [22826, 37070] (64 # [22826, 37070] @ utf16 ''san'')
   \<and> \<not> mention_pattern_test example_env [22826, 37070] (64 # [22826, 37070] @ utf16 '' san'')"
  by (simp add: mention_pattern_test_def regex_plain_def regex_meta_def utf16_def match_at_def
      word_boundary_def is_word_char_def canonicalize_def example_env_def)

subsection \<open>Notifications over passes\<close>

lemma distinct_newMentions:
  "distinct (map id_msg merged) \<Longrightarrow> distinct (newMentions env g usr previous merged)"
proof (induction merged)
  case Nil
  show ?case by (simp add: newMentions_def)
next
  case (Cons m merged)
  then have IH: "distinct (newMentions env g usr previous merged)" by simp
  have "id_msg m = Some k \<Longrightarrow> k \<notin> set (newMentions env g usr previous merged)" for k
    using Cons.prems by (auto simp: newMentions_iff image_iff)
  with IH show ?case
    by (auto simp: newMentions_def split: option.splits)
qed

lemma newMentions_new:
  "k \<in> set (newMentions env g usr previous merged) \<Longrightarrow>
   Some k \<notin> id_msg ` set previous \<and> Some k \<in> id_msg ` set merged"
  by (auto simp: newMentions_iff isNewMessage_def image_iff) metis

text \<open>
  What the test against the previous view gives: one pass fires at most once per id, and
  only for ids that are not in the view the pass before it left.
\<close>

lemma fires_only_new_to_previous_view:
  assumes "merge_effect env g u init allm rid del st = (fired, st')"
    and "merge_effect env g u' init' allm' rid' del' st' = (fired', st'')"
  shows "distinct fired \<and> (\<forall>k \<in> set fired. Some k \<notin> id_msg ` set (roomMessages st))
         \<and> set fired \<inter> set fired' = {}"
proof -
  from assms(1) have fired: "fired = newMentions env g u (roomMessages st) (mergeMessages init allm rid del)"
    and view: "roomMessages st' = mergeMessages init allm rid del"
    by (auto simp: merge_effect_def Let_def)
  from assms(2) have fired': "fired' = newMentions env g u' (roomMessages st') (mergeMessages init' allm' rid' del')"
    by (auto simp: merge_effect_def Let_def)
  have "distinct fired"
    unfolding fired by (rule distinct_newMentions) (rule distinct_merged_ids)
  moreover have "\<forall>k \<in> set fired. Some k \<notin> id_msg ` set (roomMessages st)"
    unfolding fired using newMentions_new by blast
  moreover have "set fired \<inter> set fired' = {}"
  proof -
    have "k \<in> set fired \<Longrightarrow> k \<notin> set fired'" for k
      using newMentions_new [of k env g u "roomMessages st" "mergeMessages init allm rid del"]
        newMentions_new [of k env g u' "roomMessages st'" "mergeMessages init' allm' rid' del'"]
      unfolding fired fired' view by blast
    then show ?thesis by blast
  qed
  ultimately show ?thesis by simp
qed

lemma pass_example:
  "merge_effect example_env first_name (Some alice) None
     [mk_message 7 1 ''bob'' ''hi @Alice how are you'' 100] 1 {}
     \<lparr>roomMessages = [], mentionedMessageIds = {}\<rparr>
   = ([7], \<lparr>roomMessages = [mk_message 7 1 ''bob'' ''hi @Alice how are you'' 100],
           mentionedMessageIds = {7}\<rparr>)"
  by (simp add: merge_effect_def mention_example Let_def)
     (simp add: newMentions_def mk_message_def alice_def first_name_def utf16_def
        isNewMessage_def isNotFromSelf_def isUserMentioned_def truthy_id_def
        mention_pattern_test_def regex_plain_def regex_meta_def match_at_def
        word_boundary_def is_word_char_def canonicalize_def)

lemma pass_example_other_room:
  "merge_effect example_env first_name (Some alice) None
     [mk_message 7 1 ''bob'' ''hi @Alice how are you'' 100] 2 {}
     \<lparr>roomMessages = [mk_message 7 1 ''bob'' ''hi @Alice how are you'' 100],
      mentionedMessageIds = {7}\<rparr>
   = ([], \<lparr>roomMessages = [], mentionedMessageIds = {7}\<rparr>)"
  by (simp add: merge_effect_def mergeMessages_def map_values_def Let_def newMentions_def
      mk_message_def)

lemma reload_example:
  "mergeMessages (Some [mk_message 7 1 ''bob'' ''hi @Alice how are you'' 100])
     [mk_message 7 1 ''bob'' ''hi @Alice how are you'' 100] 1 {}
   = [mk_message 7 1 ''bob'' ''hi @Alice how are you'' 100]"
  by (simp add: mergeMessages_def mk_message_def map_values_def)

lemma pass_example_back:
  "merge_effect example_env first_name (Some alice)
     (Some [mk_message 7 1 ''bob'' ''hi @Alice how are you'' 100])
     [mk_message 7 1 ''bob'' ''hi @Alice how are you'' 100] 1 {}
     \<lparr>roomMessages = [], mentionedMessageIds = {7}\<rparr>
   = ([7], \<lparr>roomMessages = [mk_message 7 1 ''bob'' ''hi @Alice how are you'' 100],
           mentionedMessageIds = {7}\<rparr>)"
  by (simp add: merge_effect_def reload_example Let_def)
     (simp add: newMentions_def mk_message_def alice_def first_name_def utf16_def
        isNewMessage_def isNotFromSelf_def isUserMentioned_def truthy_id_def
        mention_pattern_test_def regex_plain_def regex_meta_def match_at_def
        word_boundary_def is_word_char_def canonicalize_def)

text \<open>
  C6 (a mention notifies at most once per session) does not hold of the code. A message
  from Bob that mentions Alice arrives in room 1 and fires its notification; Alice
  leaves for room 2 and comes back to room 1, where the message is now also part of the
  room's reloaded history. The third pass fires the notification for the same id again,
  although \<open>mentionedMessageIds\<close> has held the id since the first pass.
\<close>

theorem mention_fires_again_on_return:
  "run_passes example_env first_name
     [(Some alice, None, [mk_message 7 1 ''bob'' ''hi @Alice how are you'' 100], 1, {}),
      (Some alice, None, [mk_message 7 1 ''bob'' ''hi @Alice how are you'' 100], 2, {}),
      (Some alice, Some [mk_message 7 1 ''bob'' ''hi @Alice how are you'' 100],
         [mk_message 7 1 ''bob'' ''hi @Alice how are you'' 100], 1, {})]
     \<lparr>roomMessages = [], mentionedMessageIds = {}\<rparr>
   = ([[7], [], [7]],
      \<lparr>roomMessages = [mk_message 7 1 ''bob'' ''hi @Alice how are you'' 100],
       mentionedMessageIds = {7}\<rparr>)
   \<and> mentionedMessageIds (snd (run_passes example_env first_name
     [(Some alice, None, [mk_message 7 1 ''bob'' ''hi @Alice how are you'' 100], 1, {}),
      (Some alice, None, [mk_message 7 1 ''bob'' ''hi @Alice how are you'' 100], 2, {})]
     \<lparr>roomMessages = [], mentionedMessageIds = {}\<rparr>)) = {7}"
  by (simp add: pass_example pass_example_other_room pass_example_back)

subsection \<open>Translation cache, scrolling, upload\<close>

lemma cache_run_append: "cache_run (es @ es') st = cache_run es' (cache_run es st)"
  by (induction es arbitrary: st) auto

text \<open>
  C7 (stale translation), as amended. Right after a language change the cache is empty:
  every lookup is absent. A callback that resolves after it, for a request issued at
  any time, stores its text under its message id.
\<close>

theorem language_change_then_callback:
  "translatedMessages (cache_run (es @ [LanguageChanged newLang]) st) k = None \<and>
   translatedMessages
     (cache_run (es @ [LanguageChanged newLang, TranslationResolved req translatedResult]) st)
     (req_messageId req) = Some translatedResult"
  by (simp add: cache_run_append language_changed_def translation_callback_def)

text \<open>
  As stated, C7 fails: a translation requested under one language and resolved after
  the change to another is found in the cache.
\<close>

theorem stale_translation_counterexample:
  "handleManualTranslation [mk_message 1 1 ''bob'' ''hello'' 100] 1 ''hello'' ''en'' ''ja''
     = Some \<lparr>req_message = mk_message 1 1 ''bob'' ''hello'' 100, req_targetLanguage = ''ja'',
             req_priority = High, req_messageId = 1\<rparr>
   \<and> translatedMessages
       (cache_run
          [LanguageChanged ''fr'',
           TranslationResolved
             \<lparr>req_message = mk_message 1 1 ''bob'' ''hello'' 100, req_targetLanguage = ''ja'',
              req_priority = High, req_messageId = 1\<rparr> ''konnichiwa'']
          \<lparr>currentLanguage = ''ja'', translatedMessages = Map.empty\<rparr>) 1
     = Some ''konnichiwa''"
  by (simp add: handleManualTranslation_def mk_message_def language_changed_def
      translation_callback_def)

text \<open>
  C9 (autoscroll), as amended. The autoscroll effect schedules the scroll to the latest
  message exactly when the user is not scrolling, \<^verbatim>\<open>showScrollToBottom\<close> is unset and there
  is a message. The jump-to-latest button is shown exactly when \<^verbatim>\<open>showScrollToBottom\<close> is
  set, which a scroll event sets when it is not near the bottom and there is a message.
  Sending a message that is not blank always schedules the scroll.
\<close>

theorem autoscroll_policy:
  assumes "trim text \<noteq> []"
  shows "(ScheduleScrollToBottom \<in> set (autoscroll_effect n st) \<longleftrightarrow>
            \<not> isUserScrolling st \<and> \<not> showScrollToBottom st \<and> 0 < n)
         \<and> (jump_to_latest_shown st \<longleftrightarrow> showScrollToBottom st)
         \<and> (jump_to_latest_shown (handleScroll scrollTop clientHeight scrollHeight n st) \<longleftrightarrow>
               scrollTop + clientHeight < scrollHeight - 100 \<and> 0 < n)
         \<and> isUserScrolling (handleScroll scrollTop clientHeight scrollHeight n st)
         \<and> ScheduleScrollToBottom \<in> set (handleSendMessage text rid)"
  using assms
  by (auto simp: autoscroll_effect_def jump_to_latest_shown_def handleScroll_def
      handleSendMessage_def Let_def)

theorem autoscroll_policy_witness:
  "trim (utf16 ''hello '') \<noteq> []
   \<and> ScheduleScrollToBottom \<in> set (handleSendMessage (utf16 ''hello '') 1)
   \<and> ScheduleScrollToBottom
       \<in> set (autoscroll_effect 3 \<lparr>isUserScrolling = False, showScrollToBottom = False\<rparr>)"
proof -
  have t: "trim (utf16 ''hello '') \<noteq> []"
    by (simp add: trim_def is_space_def utf16_def)
  from autoscroll_policy [OF t, of 3 "\<lparr>isUserScrolling = False, showScrollToBottom = False\<rparr>" 0 0 0 1] t
  show ?thesis by simp
qed

text \<open>
  A text of white space only is not sent and schedules nothing, also when the white
  space is outside ASCII (here U+3000 and U+00A0).
\<close>

lemma blank_message_example:
  "handleSendMessage [12288, 160, 32] 1 = [] \<and> trim (utf16 '' hi '') = utf16 ''hi''"
  by (simp add: handleSendMessage_def trim_def is_space_def utf16_def)

text \<open>
  As stated, C9 fails: after a scroll event near the bottom the user counts as scrolling;
  a message that arrives then is neither scrolled to nor announced by the button.
\<close>

theorem autoscroll_counterexample:
  "autoscroll_effect 2
     (handleScroll 900 100 1000 1 \<lparr>isUserScrolling = False, showScrollToBottom = False\<rparr>) = []
   \<and> \<not> jump_to_latest_shown
     (handleScroll 900 100 1000 1 \<lparr>isUserScrolling = False, showScrollToBottom = False\<rparr>)"
  by (simp add: autoscroll_effect_def handleScroll_def jump_to_latest_shown_def)

text \<open>
  C10 (upload validation). For a selected file whose type does not start with
  \<^verbatim>\<open>image/\<close> or whose size is above 1048576 bytes, the handler shows one toast and
  returns: it starts no read and the update mutation is never called, whatever happens later.
\<close>

theorem upload_rejected:
  assumes "\<not> startsWith (file_type f) ''image/'' \<or> 1048576 < file_size f"
  shows "(\<exists>title description. upload_session (Some f) r = [Toast title description])
         \<and> (\<forall>url useCustom. UpdateProfileImage url useCustom \<notin> set (upload_session (Some f) r))"
  using assms by (auto simp: upload_session_def handleFileUpload_def Let_def)

theorem upload_rejected_witness:
  "1048576 < file_size \<lparr>file_type = ''image/png'', file_size = 1048577\<rparr>
   \<and> upload_session (Some \<lparr>file_type = ''image/png'', file_size = 1048577\<rparr>) (ImageLoaded ''data:x'')
       = [Toast ''File too large'' ''Please select an image smaller than 1MB.'']
   \<and> UpdateProfileImage ''data:x'' True
       \<notin> set (upload_session (Some \<lparr>file_type = ''image/png'', file_size = 1048577\<rparr>)
                (ImageLoaded ''data:x''))"
  using upload_rejected [of "\<lparr>file_type = ''image/png'', file_size = 1048577\<rparr>" "ImageLoaded ''data:x''"]
  by (simp add: upload_session_def handleFileUpload_def startsWith_def)

lemma upload_accepted_example:
  "upload_session (Some \<lparr>file_type = ''image/png'', file_size = 1048576\<rparr>) (ImageLoaded ''data:x'')
   = [SetIsUploading True, ReadAsDataURL \<lparr>file_type = ''image/png'', file_size = 1048576\<rparr>,
      UpdateProfileImage ''data:x'' True, SetIsUploading False]"
  by (simp add: upload_session_def handleFileUpload_def startsWith_def image_settled_def)

end
